theory Spec2Isabelle
  imports Main
begin

section \<open>Number identity and range expansion (src/app.py)\<close>

text \<open>
  Python strings are modelled as \<^typ>\<open>string\<close>: a list of characters with code points
  0..255. On that range the regular-expression class \<^verbatim>\<open>\d\<close> of Python 3 is exactly the
  ten ASCII digits and \<^verbatim>\<open>\s\<close> is the set listed in \<open>is_space\<close>. Python integers are
  unbounded and are modelled as \<^typ>\<open>int\<close>; the interpreter's configurable limit on the
  number of digits that \<^verbatim>\<open>int()\<close> and \<^verbatim>\<open>str()\<close> convert is not modelled.
\<close>

subsection \<open>Errors\<close>

text \<open>
  Every \<^verbatim>\<open>raise\<close> of the source is a value. \<open>HTTPException\<close> carries the status
  code and the detail string, as in the source; \<open>RuntimeError\<close> is raised by the
  connection helpers; \<open>StoreError\<close> stands for an exception raised by a store driver
  during the named call.
\<close>

datatype store_call =
    PgConnect | PgExecute | PgCommit | PgRollback | PgClose
  | RedisSelect | RedisExecute
  | MdbConnect | MdbSelect | MdbDelete | MdbCommit | MdbRollback | MdbClose

datatype error =
    HTTPException int string
  | RuntimeError string
  | StoreError store_call

subsection \<open>Characters, digits, decimal numerals\<close>

definition is_digit :: "char \<Rightarrow> bool" where
  "is_digit c \<longleftrightarrow> 48 \<le> (of_char c :: int) \<and> (of_char c :: int) \<le> 57"

definition is_space :: "char \<Rightarrow> bool" where
  "is_space c \<longleftrightarrow>
     (let k = (of_char c :: int)
      in (9 \<le> k \<and> k \<le> 13) \<or> (28 \<le> k \<and> k \<le> 32) \<or> k = 133 \<or> k = 160)"

definition digit_val :: "char \<Rightarrow> int" where
  "digit_val c = of_char c - 48"

definition digit_char :: "int \<Rightarrow> char" where
  "digit_char d = char_of (48 + d)"

text \<open>\<^verbatim>\<open>int(s)\<close> for a non-empty string of decimal digits, the only arguments the source
  passes to it.\<close>

definition int_of_digits :: "string \<Rightarrow> int" where
  "int_of_digits s = foldl (\<lambda>a c. 10 * a + digit_val c) 0 s"

text \<open>\<^verbatim>\<open>str(n)\<close> for an integer: the decimal digits of its absolute value, most
  significant first, after a minus sign when it is negative.\<close>

function str_digits :: "int \<Rightarrow> string" where
  "str_digits n =
     (if n < 10 then [digit_char n] else str_digits (n div 10) @ [digit_char (n mod 10)])"
  by pat_completeness auto
termination
  by (relation "measure nat") auto

declare str_digits.simps [simp del]

definition str_int :: "int \<Rightarrow> string" where
  "str_int n = (if n < 0 then CHR ''-'' # str_digits (- n) else str_digits n)"

text \<open>\<^verbatim>\<open>s.zfill(width)\<close>: pads on the left with zeros, after a leading sign if there is
  one; a string that is already wide enough is returned as it is.\<close>

definition zfill :: "string \<Rightarrow> nat \<Rightarrow> string" where
  "zfill s width =
     (if width \<le> length s then s
      else (case s of
              [] \<Rightarrow> replicate width CHR ''0''
            | c # cs \<Rightarrow>
                if c = CHR ''+'' \<or> c = CHR ''-''
                then c # replicate (width - length s) CHR ''0'' @ cs
                else replicate (width - length s) CHR ''0'' @ s))"

definition startswith :: "string \<Rightarrow> string \<Rightarrow> bool" where
  "startswith s p \<longleftrightarrow> take (length p) s = p"

subsection \<open>normalize_to_digits, to_dn_and_target\<close>

definition normalize_to_digits :: "string \<Rightarrow> string" where
  "normalize_to_digits s = filter is_digit s"

definition to_dn_and_target :: "string \<Rightarrow> error + (string \<times> string)" where
  "to_dn_and_target number =
     (let raw = normalize_to_digits number in
      if length raw = 10 \<and> startswith raw ''0'' then
        (let dn = ''41'' @ drop 1 raw in Inr (dn, raw))
      else if length raw = 11 \<and> startswith raw ''41'' then
        (let target = ''0'' @ drop 2 raw in Inr (raw, target))
      else Inl (HTTPException 400 (''Unsupported number format: '' @ number)))"

subsection \<open>expand_numbers\<close>

definition strip_ws :: "string \<Rightarrow> string" where
  "strip_ws expr = filter (\<lambda>c. \<not> is_space c) expr"

text \<open>\<^verbatim>\<open>s.split("-", 1)\<close> on a string that contains a dash: the part before the first dash
  and the part after it.\<close>

definition split_dash :: "string \<Rightarrow> string \<times> string" where
  "split_dash s =
     (takeWhile (\<lambda>c. c \<noteq> CHR ''-'') s, drop 1 (dropWhile (\<lambda>c. c \<noteq> CHR ''-'') s))"

definition end_full_of :: "string \<Rightarrow> string \<Rightarrow> string" where
  "end_full_of start_digits end_digits =
     (if length end_digits < length start_digits
      then take (length start_digits - length end_digits) start_digits @ end_digits
      else end_digits)"

definition expand_numbers :: "string \<Rightarrow> int \<Rightarrow> error + string list" where
  "expand_numbers expr max_span =
     (let s = strip_ws expr in
      if CHR ''-'' \<notin> set s then Inr [s]
      else
        let (start_s, end_s) = split_dash s;
            start_digits = normalize_to_digits start_s;
            end_digits = normalize_to_digits end_s
        in
        if start_digits = [] \<or> end_digits = [] then
          Inl (HTTPException 400 ''Bad range format'')
        else
          let end_full = end_full_of start_digits end_digits;
              start_i = int_of_digits start_digits;
              end_i = int_of_digits end_full
          in
          if end_i < start_i then Inl (HTTPException 400 ''Range end < start'')
          else
            let span = end_i - start_i + 1 in
            if span > max_span then
              Inl (HTTPException 400 (''Range too large (>'' @ str_int max_span @ '')''))
            else
              let width = length start_digits in
              Inr (map (\<lambda>n. zfill (str_int n) width) [start_i..end_i]))"

subsection \<open>expand_preview\<close>

record preview =
  count :: nat
  expanded_targets :: "string list"
  expanded_dns :: "string list"
  expanded_redis_keys :: "string list"

text \<open>The loop of \<^verbatim>\<open>expand_preview\<close>: the first element that \<^verbatim>\<open>to_dn_and_target\<close> rejects
  aborts the call with its error.\<close>

fun classify_all ::
  "string list \<Rightarrow> string list \<Rightarrow> string list \<Rightarrow> error + (string list \<times> string list)" where
  "classify_all [] dns ttargets = Inr (dns, ttargets)"
| "classify_all (t # ts) dns ttargets =
     (case to_dn_and_target t of
        Inl e \<Rightarrow> Inl e
      | Inr (dn, target) \<Rightarrow> classify_all ts (dns @ [dn]) (ttargets @ [target]))"

definition expand_preview :: "string \<Rightarrow> error + preview" where
  "expand_preview expr =
     (case expand_numbers expr 100 of
        Inl e \<Rightarrow> Inl e
      | Inr targets \<Rightarrow>
          (case classify_all targets [] [] of
             Inl e \<Rightarrow> Inl e
           | Inr (dns, ttargets) \<Rightarrow>
               Inr \<lparr> count = length ttargets,
                     expanded_targets = ttargets,
                     expanded_dns = dns,
                     expanded_redis_keys = map (\<lambda>dn. ''nprn:routing:'' @ dn) dns \<rparr>))"

section \<open>The three operations and their stores\<close>

subsection \<open>Configuration, requests, store contents\<close>

record config =
  API_TOKEN :: string
  PG_DSN :: string
  REDIS_URL :: string
  REDIS_DB :: int
  MDB_HOST :: string
  MDB_USER :: string
  MDB_DB :: string

datatype enp_name = NXP1 | NXP2

record fix_request =
  input :: string
  dry_run :: bool
  enp_target :: enp_name

text \<open>A row of the relational table \<^verbatim>\<open>numbers\<close>, with the columns the update statement of
  \<^verbatim>\<open>fix_enp\<close> names; a row of \<^verbatim>\<open>cli_provisioning\<close>, with the columns \<^verbatim>\<open>fix_disp\<close> selects.\<close>

record numbers_row =
  dn :: string
  reservation_tstamp :: "string option"
  product_id :: int
  system_id :: int
  nprn :: int
  outporting_tstamp :: "string option"
  lastupdated_tstamp :: "string option"

record prov_row =
  row_id :: int
  target_number :: string
  target_system :: string
  tenant :: string
  row_nprn :: string
  insert_date :: string

text \<open>
  The stores are outside the program. \<open>world\<close> holds their committed contents, the value
  \<^verbatim>\<open>NOW()\<close> of the relational store, and the list of store calls the program has made so
  far, oldest first. Which store calls raise is given to each operation as a list
  \<open>faults\<close>; rollback and close are taken not to raise. A request runs alone: no other
  client changes a store while it runs.
\<close>

record world =
  numbers :: "numbers_row list"
  pg_now :: string
  redis_keys :: "string list"
  cli_provisioning :: "prov_row list"
  calls :: "store_call list"

definition do_call :: "store_call list \<Rightarrow> store_call \<Rightarrow> world \<Rightarrow> (error + unit) \<times> world" where
  "do_call faults c w =
     (let w' = w\<lparr> calls := calls w @ [c] \<rparr>
      in if c \<in> set faults then (Inl (StoreError c), w') else (Inr (), w'))"

definition note_call :: "store_call \<Rightarrow> world \<Rightarrow> world" where
  "note_call c w = w\<lparr> calls := calls w @ [c] \<rparr>"

subsection \<open>require_token and the connection helpers\<close>

definition require_token :: "config \<Rightarrow> string option \<Rightarrow> error + unit" where
  "require_token cfg header =
     (let token = (case header of None \<Rightarrow> [] | Some t \<Rightarrow> t)
      in if token \<noteq> API_TOKEN cfg then Inl (HTTPException 401 ''Unauthorized'') else Inr ())"

definition pg_conn :: "config \<Rightarrow> store_call list \<Rightarrow> world \<Rightarrow> (error + unit) \<times> world" where
  "pg_conn cfg faults w =
     (if PG_DSN cfg = [] then (Inl (RuntimeError ''PG_DSN missing''), w)
      else do_call faults PgConnect w)"



subsection \<open>fix_enp: relational reassignment\<close>

record enp_cfg =
  cfg_system_id :: int
  cfg_nprn :: int

definition ENP_MAP :: "enp_name \<Rightarrow> enp_cfg" where
  "ENP_MAP t =
     (case t of
        NXP1 \<Rightarrow> \<lparr> cfg_system_id = 500, cfg_nprn = 98067 \<rparr>
      | NXP2 \<Rightarrow> \<lparr> cfg_system_id = 510, cfg_nprn = 98019 \<rparr>)"

text \<open>The response dictionary of \<^verbatim>\<open>fix_enp\<close>; the key \<^verbatim>\<open>updated_dns\<close> is absent from a
  dry-run response.\<close>

record enp_response =
  enp_dry_run :: bool
  enp_enp_target :: enp_name
  enp_prev :: preview
  enp_system_id :: int
  enp_nprn :: int
  updated_dns :: "string list option"

text \<open>The statement \<^verbatim>\<open>UPDATE numbers SET ... WHERE dn = ANY(dns) RETURNING dn\<close>: the table
  after it and the \<^verbatim>\<open>dn\<close> values it returns.\<close>

definition update_row :: "int \<Rightarrow> int \<Rightarrow> string \<Rightarrow> numbers_row \<Rightarrow> numbers_row" where
  "update_row sid np now r =
     r\<lparr> reservation_tstamp := Some ''2050-01-01 00:00:00'',
        product_id := 1,
        system_id := sid,
        nprn := np,
        outporting_tstamp := None,
        lastupdated_tstamp := Some now \<rparr>"

definition update_numbers ::
  "int \<Rightarrow> int \<Rightarrow> string list \<Rightarrow> string \<Rightarrow> numbers_row list \<Rightarrow> numbers_row list \<times> string list" where
  "update_numbers sid np dns now rows =
     (map (\<lambda>r. if dn r \<in> set dns then update_row sid np now r else r) rows,
      map dn (filter (\<lambda>r. dn r \<in> set dns) rows))"

text \<open>
  \<^verbatim>\<open>with pg_conn() as conn, conn.cursor() as cur\<close>: the connection commits when the block
  ends normally, rolls back when it ends with an exception, and is closed in both cases.
\<close>

definition fix_enp ::
  "config \<Rightarrow> store_call list \<Rightarrow> string option \<Rightarrow> fix_request \<Rightarrow> world
     \<Rightarrow> (error + enp_response) \<times> world" where
  "fix_enp cfg faults header body w =
     (case require_token cfg header of
        Inl e \<Rightarrow> (Inl e, w)
      | Inr _ \<Rightarrow>
     (case expand_preview (input body) of
        Inl e \<Rightarrow> (Inl e, w)
      | Inr prev \<Rightarrow>
          let c = ENP_MAP (enp_target body);
              resp = \<lparr> enp_dry_run = dry_run body, enp_enp_target = enp_target body,
                       enp_prev = prev, enp_system_id = cfg_system_id c,
                       enp_nprn = cfg_nprn c, updated_dns = None \<rparr>
          in
          if dry_run body then (Inr resp, w)
          else
            let dns = expanded_dns prev in
            (case pg_conn cfg faults w of
               (Inl e, w1) \<Rightarrow> (Inl e, w1)
             | (Inr _, w1) \<Rightarrow>
                 (case do_call faults PgExecute w1 of
                    (Inl e, w2) \<Rightarrow> (Inl e, note_call PgClose (note_call PgRollback w2))
                  | (Inr _, w2) \<Rightarrow>
                      let (rows', returned) =
                            update_numbers (cfg_system_id c) (cfg_nprn c) dns (pg_now w2)
                              (numbers w2)
                      in
                      (case do_call faults PgCommit w2 of
                         (Inl e, w3) \<Rightarrow> (Inl e, note_call PgClose w3)
                       | (Inr _, w3) \<Rightarrow>
                           (Inr (resp\<lparr> updated_dns := Some returned \<rparr>),
                            note_call PgClose (w3\<lparr> numbers := rows' \<rparr>)))))))"

subsection \<open>fix_nprn: cache invalidation\<close>




subsection \<open>fix_disp: provisioning cleanup\<close>






section \<open>Vocabulary of the specification\<close>

text \<open>The error kinds of the specification are the exceptions of the source with these
  status codes and detail strings.\<close>

abbreviation UnsupportedNumberFormat :: "string \<Rightarrow> error" where
  "UnsupportedNumberFormat raw \<equiv> HTTPException 400 (''Unsupported number format: '' @ raw)"

abbreviation BadRangeFormat :: error where
  "BadRangeFormat \<equiv> HTTPException 400 ''Bad range format''"

abbreviation RangeEndBeforeStart :: error where
  "RangeEndBeforeStart \<equiv> HTTPException 400 ''Range end < start''"

abbreviation RangeTooLarge :: "int \<Rightarrow> error" where
  "RangeTooLarge max_span \<equiv> HTTPException 400 (''Range too large (>'' @ str_int max_span @ '')'')"

text \<open>The intermediate values of \<^verbatim>\<open>expand_numbers\<close> on a range expression, named as in the
  source.\<close>

definition has_dash :: "string \<Rightarrow> bool" where
  "has_dash expr \<longleftrightarrow> CHR ''-'' \<in> set (strip_ws expr)"

definition start_digits_of :: "string \<Rightarrow> string" where
  "start_digits_of expr = normalize_to_digits (fst (split_dash (strip_ws expr)))"

definition end_digits_of :: "string \<Rightarrow> string" where
  "end_digits_of expr = normalize_to_digits (snd (split_dash (strip_ws expr)))"

definition end_full :: "string \<Rightarrow> string" where
  "end_full expr = end_full_of (start_digits_of expr) (end_digits_of expr)"

definition start_i :: "string \<Rightarrow> int" where
  "start_i expr = int_of_digits (start_digits_of expr)"

definition end_i :: "string \<Rightarrow> int" where
  "end_i expr = int_of_digits (end_full expr)"

text \<open>Left padding with zeros to a width, without truncation.\<close>

definition zero_padded :: "nat \<Rightarrow> string \<Rightarrow> string" where
  "zero_padded width s = replicate (width - length s) CHR ''0'' @ s"

section \<open>An example deployment\<close>

text \<open>A configuration, store contents and requests on which the operations are run
  below.\<close>

definition ex_cfg :: config where
  "ex_cfg =
     \<lparr> API_TOKEN = ''secret'', PG_DSN = ''postgresql://db/numbers'',
       REDIS_URL = ''redis://cache'', REDIS_DB = 9,
       MDB_HOST = ''mdb'', MDB_USER = ''disp'', MDB_DB = ''dispatcher-api2'' \<rparr>"

definition ex_row1 :: numbers_row where
  "ex_row1 =
     \<lparr> dn = ''41412345678'', reservation_tstamp = None, product_id = 7, system_id = 100,
       nprn = 98000, outporting_tstamp = Some ''2024-01-01 00:00:00'',
       lastupdated_tstamp = None \<rparr>"

definition ex_row2 :: numbers_row where
  "ex_row2 =
     \<lparr> dn = ''41449999999'', reservation_tstamp = None, product_id = 3, system_id = 100,
       nprn = 98000, outporting_tstamp = None, lastupdated_tstamp = None \<rparr>"

definition ex_prov1 :: prov_row where
  "ex_prov1 =
     \<lparr> row_id = 1, target_number = ''0412345678'', target_system = ''A'', tenant = ''t1'',
       row_nprn = ''98000'', insert_date = ''2024-01-01'' \<rparr>"

definition ex_prov2 :: prov_row where
  "ex_prov2 =
     \<lparr> row_id = 2, target_number = ''0449999999'', target_system = ''B'', tenant = ''t2'',
       row_nprn = ''98000'', insert_date = ''2024-02-02'' \<rparr>"

definition ex_world :: world where
  "ex_world =
     \<lparr> numbers = [ex_row1, ex_row2], pg_now = ''2025-06-01 12:00:00'',
       redis_keys = [''nprn:routing:41412345678''],
       cli_provisioning = [ex_prov1, ex_prov2], calls = [] \<rparr>"

definition ex_request :: "string \<Rightarrow> bool \<Rightarrow> fix_request" where
  "ex_request inp dr = \<lparr> input = inp, dry_run = dr, enp_target = NXP2 \<rparr>"

definition ex_prev :: preview where
  "ex_prev =
     \<lparr> count = 1, expanded_targets = [''0412345678''], expanded_dns = [''41412345678''],
       expanded_redis_keys = [''nprn:routing:41412345678''] \<rparr>"

section \<open>Decimal numerals\<close>

lemma of_char_digit_char: "0 \<le> d \<Longrightarrow> d < 10 \<Longrightarrow> (of_char (digit_char d) :: int) = 48 + d"
  by (simp add: digit_char_def)

lemma is_digit_digit_char: "0 \<le> d \<Longrightarrow> d < 10 \<Longrightarrow> is_digit (digit_char d)"
  by (simp add: is_digit_def of_char_digit_char)

lemma digit_val_digit_char: "0 \<le> d \<Longrightarrow> d < 10 \<Longrightarrow> digit_val (digit_char d) = d"
  by (simp add: digit_val_def of_char_digit_char)

lemma digit_val_range: "is_digit c \<Longrightarrow> 0 \<le> digit_val c \<and> digit_val c \<le> 9"
  by (simp add: is_digit_def digit_val_def)

lemma int_of_digits_Nil: "int_of_digits [] = 0"
  by (simp add: int_of_digits_def)

lemma int_of_digits_snoc: "int_of_digits (s @ [c]) = 10 * int_of_digits s + digit_val c"
  by (simp add: int_of_digits_def)

lemma int_of_digits_bounds:
  "list_all is_digit s \<Longrightarrow> 0 \<le> int_of_digits s \<and> int_of_digits s < 10 ^ length s"
proof (induction s rule: rev_induct)
  case Nil
  show ?case by (simp add: int_of_digits_Nil)
next
  case (snoc c s)
  then have ih: "0 \<le> int_of_digits s" "int_of_digits s < 10 ^ length s" and c: "is_digit c"
    by simp_all
  from c have "0 \<le> digit_val c" "digit_val c \<le> 9"
    using digit_val_range by blast+
  moreover from ih(2) have "int_of_digits s + 1 \<le> 10 ^ length s" by simp
  then have "10 * (int_of_digits s + 1) \<le> 10 * 10 ^ length s" by (rule mult_left_mono) simp
  ultimately show ?case using ih(1) by (simp add: int_of_digits_snoc)
qed

lemma str_digits_nonempty: "str_digits n \<noteq> []"
  by (subst str_digits.simps) simp

lemma str_digits_all_digits: "0 \<le> n \<Longrightarrow> list_all is_digit (str_digits n)"
proof (induction n rule: str_digits.induct)
  case (1 n)
  show ?case
  proof (cases "n < 10")
    case True
    with "1.prems" show ?thesis
      by (subst str_digits.simps) (simp add: is_digit_digit_char)
  next
    case False
    with "1.prems" have "0 \<le> n div 10" by simp
    with False "1.IH" have "list_all is_digit (str_digits (n div 10))" by simp
    moreover have "is_digit (digit_char (n mod 10))"
      by (rule is_digit_digit_char) simp_all
    ultimately show ?thesis using False
      by (subst str_digits.simps) simp
  qed
qed

lemma int_of_digits_str_digits: "0 \<le> n \<Longrightarrow> int_of_digits (str_digits n) = n"
proof (induction n rule: str_digits.induct)
  case (1 n)
  show ?case
  proof (cases "n < 10")
    case True
    with "1.prems" show ?thesis
      by (subst str_digits.simps) (simp add: int_of_digits_def digit_val_digit_char)
  next
    case False
    with "1.prems" have "0 \<le> n div 10" by simp
    with False "1.IH" have "int_of_digits (str_digits (n div 10)) = n div 10" by simp
    moreover have "digit_val (digit_char (n mod 10)) = n mod 10"
      by (rule digit_val_digit_char) simp_all
    ultimately show ?thesis using False
      by (subst str_digits.simps) (simp add: int_of_digits_snoc)
  qed
qed

lemma length_str_digits: "0 \<le> n \<Longrightarrow> n < 10 ^ w \<Longrightarrow> 0 < w \<Longrightarrow> length (str_digits n) \<le> w"
proof (induction n arbitrary: w rule: str_digits.induct)
  case (1 n)
  show ?case
  proof (cases "n < 10")
    case True
    with "1.prems" show ?thesis
      by (subst str_digits.simps) simp
  next
    case False
    obtain v where w: "w = Suc v" using "1.prems"(3) by (cases w) auto
    have "v \<noteq> 0" using False "1.prems"(2) w by (cases v) auto
    then have v: "0 < v" by simp
    have "n < 10 * 10 ^ v" using "1.prems"(2) w by simp
    then have "n div 10 < 10 ^ v" by arith
    moreover have "0 \<le> n div 10" using "1.prems"(1) by simp
    ultimately have "length (str_digits (n div 10)) \<le> v" using "1.IH" False v by simp
    then show ?thesis using False w
      by (subst str_digits.simps) simp
  qed
qed

lemma hd_str_digits: "0 < n \<Longrightarrow> hd (str_digits n) \<noteq> CHR ''0''"
proof (induction n rule: str_digits.induct)
  case (1 n)
  show ?case
  proof (cases "n < 10")
    case True
    have "(of_char (digit_char n) :: int) = 48 + n" using True "1.prems" by (simp add: of_char_digit_char)
    then have "digit_char n \<noteq> CHR ''0''" using "1.prems" by auto
    then show ?thesis using True by (subst str_digits.simps) simp
  next
    case False
    then have "0 < n div 10" by simp
    with False "1.IH" have "hd (str_digits (n div 10)) \<noteq> CHR ''0''" by simp
    then show ?thesis using False str_digits_nonempty[of "n div 10"]
      by (subst str_digits.simps) simp
  qed
qed

lemma char_of_of_char_int: "char_of (of_char c :: int) = c"
  by simp



lemma digit_not_sign: "is_digit c \<Longrightarrow> c \<noteq> CHR ''+'' \<and> c \<noteq> CHR ''-''"
  by (auto simp: is_digit_def)

lemma str_int_nonneg: "0 \<le> n \<Longrightarrow> str_int n = str_digits n"
  by (simp add: str_int_def)

lemma zfill_digits:
  "s \<noteq> [] \<Longrightarrow> list_all is_digit s \<Longrightarrow> zfill s width = zero_padded width s"
proof (cases s)
  case Nil
  assume "s \<noteq> []"
  with Nil show ?thesis by simp
next
  case (Cons c cs)
  assume "list_all is_digit s"
  with Cons have "is_digit c" by simp
  then have "c \<noteq> CHR ''+''" "c \<noteq> CHR ''-''" using digit_not_sign by blast+
  with Cons show ?thesis
    by (simp add: zfill_def zero_padded_def)
qed

lemma zfill_str_int:
  "0 \<le> n \<Longrightarrow> zfill (str_int n) width = zero_padded width (str_int n)"
  by (simp add: str_int_nonneg zfill_digits str_digits_nonempty str_digits_all_digits)

lemma length_zero_padded: "length (zero_padded width s) = max width (length s)"
  by (simp add: zero_padded_def)

lemma int_of_digits_zeros: "int_of_digits (replicate k CHR ''0'' @ s) = int_of_digits s"
proof -
  have "foldl (\<lambda>a c. 10 * a + digit_val c) 0 (replicate k CHR ''0'') = 0"
    by (induction k) (simp_all add: digit_val_def)
  then show ?thesis by (simp add: int_of_digits_def)
qed

lemma int_of_digits_zero_padded: "int_of_digits (zero_padded width s) = int_of_digits s"
  by (simp add: zero_padded_def int_of_digits_zeros)

lemma zero_padded_all_digits: "list_all is_digit s \<Longrightarrow> list_all is_digit (zero_padded width s)"
  by (auto simp: zero_padded_def is_digit_def list_all_iff)

lemma normalize_all_digits: "list_all is_digit (normalize_to_digits s)"
  by (simp add: normalize_to_digits_def list_all_iff)

lemma normalize_idem: "list_all is_digit s \<Longrightarrow> normalize_to_digits s = s"
  by (simp add: normalize_to_digits_def list_all_iff)

section \<open>Range expansion: the branches of expand_numbers\<close>

lemma split_dash_parts:
  "CHR ''-'' \<in> set s \<Longrightarrow>
     s = fst (split_dash s) @ CHR ''-'' # snd (split_dash s) \<and>
     CHR ''-'' \<notin> set (fst (split_dash s))"
proof -
  assume d: "CHR ''-'' \<in> set s"
  let ?P = "\<lambda>c. c \<noteq> CHR ''-''"
  from d have "dropWhile ?P s \<noteq> []" by simp
  moreover have "hd (dropWhile ?P s) = CHR ''-''"
    using d hd_dropWhile[of ?P s] by simp
  ultimately have "dropWhile ?P s = CHR ''-'' # drop 1 (dropWhile ?P s)"
    by (cases "dropWhile ?P s") simp_all
  then have "s = takeWhile ?P s @ CHR ''-'' # drop 1 (dropWhile ?P s)"
    using takeWhile_dropWhile_id[of ?P s] by simp
  moreover have "CHR ''-'' \<notin> set (takeWhile ?P s)"
    using set_takeWhileD by fastforce
  ultimately show ?thesis by (simp add: split_dash_def)
qed

lemma expand_numbers_no_dash:
  "\<not> has_dash expr \<Longrightarrow> expand_numbers expr max_span = Inr [strip_ws expr]"
  by (simp add: expand_numbers_def has_dash_def)

lemma expand_numbers_dash:
  "has_dash expr \<Longrightarrow>
   expand_numbers expr max_span =
     (if start_digits_of expr = [] \<or> end_digits_of expr = [] then Inl BadRangeFormat
      else if end_i expr < start_i expr then Inl RangeEndBeforeStart
      else if end_i expr - start_i expr + 1 > max_span then Inl (RangeTooLarge max_span)
      else Inr (map (\<lambda>n. zfill (str_int n) (length (start_digits_of expr)))
                  [start_i expr..end_i expr]))"
  by (simp add: expand_numbers_def has_dash_def start_digits_of_def end_digits_of_def
      end_i_def start_i_def end_full_def Let_def split_def)

lemma start_i_nonneg: "0 \<le> start_i expr"
  by (simp add: start_i_def start_digits_of_def normalize_all_digits int_of_digits_bounds)

lemma start_i_bound: "start_i expr < 10 ^ length (start_digits_of expr)"
  by (simp add: start_i_def start_digits_of_def normalize_all_digits int_of_digits_bounds)

lemma end_full_all_digits: "list_all is_digit (end_full expr)"
  using normalize_all_digits
  by (auto simp: end_full_def end_full_of_def start_digits_of_def end_digits_of_def list_all_iff
      dest: in_set_takeD)

lemma length_end_full:
  "length (end_full expr) = max (length (start_digits_of expr)) (length (end_digits_of expr))"
  by (simp add: end_full_def end_full_of_def)

lemma end_i_bound:
  "end_i expr < 10 ^ max (length (start_digits_of expr)) (length (end_digits_of expr))"
  using int_of_digits_bounds[OF end_full_all_digits, of expr]
  by (simp add: end_i_def length_end_full)

lemma expand_numbers_valid:
  assumes "has_dash expr" "start_digits_of expr \<noteq> []" "end_digits_of expr \<noteq> []"
    "start_i expr \<le> end_i expr" "end_i expr - start_i expr + 1 \<le> max_span"
  shows "expand_numbers expr max_span =
           Inr (map (\<lambda>n. zero_padded (length (start_digits_of expr)) (str_int n))
                  [start_i expr..end_i expr])"
proof -
  have "map (\<lambda>n. zfill (str_int n) (length (start_digits_of expr))) [start_i expr..end_i expr] =
        map (\<lambda>n. zero_padded (length (start_digits_of expr)) (str_int n)) [start_i expr..end_i expr]"
  proof (rule map_cong[OF refl])
    fix n assume "n \<in> set [start_i expr..end_i expr]"
    then have "0 \<le> n" using start_i_nonneg[of expr] by simp
    then show "zfill (str_int n) (length (start_digits_of expr)) =
               zero_padded (length (start_digits_of expr)) (str_int n)"
      by (rule zfill_str_int)
  qed
  with assms show ?thesis
    by (simp add: expand_numbers_dash)
qed

lemma expand_numbers_Inr_iff:
  "has_dash expr \<Longrightarrow>
   expand_numbers expr max_span = Inr xs \<longleftrightarrow>
     start_digits_of expr \<noteq> [] \<and> end_digits_of expr \<noteq> [] \<and> start_i expr \<le> end_i expr \<and>
     end_i expr - start_i expr + 1 \<le> max_span \<and>
     xs = map (\<lambda>n. zero_padded (length (start_digits_of expr)) (str_int n))
            [start_i expr..end_i expr]"
proof (cases "start_digits_of expr \<noteq> [] \<and> end_digits_of expr \<noteq> [] \<and>
    start_i expr \<le> end_i expr \<and> end_i expr - start_i expr + 1 \<le> max_span")
  case True
  assume "has_dash expr"
  with True show ?thesis
    by (auto simp: expand_numbers_valid)
next
  case False
  assume "has_dash expr"
  with False show ?thesis
    by (auto simp: expand_numbers_dash)
qed

lemma int_of_padded_str_int:
  "0 \<le> n \<Longrightarrow> int_of_digits (zero_padded width (str_int n)) = n"
  by (simp add: int_of_digits_zero_padded str_int_nonneg int_of_digits_str_digits)

lemma map_int_of_padded:
  "0 \<le> a \<Longrightarrow> map int_of_digits (map (\<lambda>n. zero_padded width (str_int n)) [a..b]) = [a..b]"
proof -
  assume a: "0 \<le> a"
  have "map (\<lambda>n. int_of_digits (zero_padded width (str_int n))) [a..b] = map (\<lambda>n. n) [a..b]"
    by (rule map_cong[OF refl]) (use a in \<open>simp add: int_of_padded_str_int\<close>)
  then show ?thesis by (simp add: comp_def)
qed

lemma length_upto_int: "a \<le> b \<Longrightarrow> int (length [a..b]) = b - a + 1"
  by simp

lemma sorted_wrt_upto: "sorted_wrt (<) [a..b::int]"
  by (simp add: strict_sorted_iff)

section \<open>Claims about range expansion\<close>



lemma padded_str_int_shape:
  assumes "0 \<le> n"
  shows "zero_padded width (str_int n) \<noteq> []"
    and "list_all is_digit (zero_padded width (str_int n))"
    and "width \<le> length (zero_padded width (str_int n))"
  using assms
  by (simp_all add: str_int_nonneg zero_padded_all_digits str_digits_all_digits
      length_zero_padded) (simp add: zero_padded_def str_digits_nonempty)

lemma padded_str_int_width:
  assumes "0 \<le> n" "n < 10 ^ width" "0 < width"
  shows "length (zero_padded width (str_int n)) = width"
  using length_str_digits[OF assms] assms(1)
  by (simp add: length_zero_padded str_int_nonneg)

text \<open>
  Claim C3, as amended. For a range expression that contains a dash and on which
  \<open>expand_numbers\<close> succeeds, every returned element is a non-empty string of decimal
  digits at least as wide as \<open>start_digits\<close>, and exactly as wide whenever \<open>end_digits\<close> is
  no longer than \<open>start_digits\<close>; the number of elements is \<open>end_i - start_i + 1\<close>, at
  least one and at most \<open>max_span\<close>; and the integer values of the elements are strictly
  ascending.

  The claim as written (every element has the width of the range start, for every
  expression) fails: \<open>99-105\<close> expands to a list that holds \<open>100\<close>, three characters
  against a start of two, and an expression without a dash such as \<open>abc\<close> is returned
  as it is, digits or not.
\<close>

theorem expand_range_shape:
  "has_dash expr \<and> expand_numbers expr max_span = Inr xs \<longrightarrow>
     (\<forall>x \<in> set xs. x \<noteq> [] \<and> list_all is_digit x \<and> length (start_digits_of expr) \<le> length x) \<and>
     (length (end_digits_of expr) \<le> length (start_digits_of expr) \<longrightarrow>
        (\<forall>x \<in> set xs. length x = length (start_digits_of expr))) \<and>
     int (length xs) = end_i expr - start_i expr + 1 \<and>
     1 \<le> length xs \<and> int (length xs) \<le> max_span \<and>
     sorted_wrt (<) (map int_of_digits xs)"
proof
  assume a: "has_dash expr \<and> expand_numbers expr max_span = Inr xs"
  let ?w = "length (start_digits_of expr)"
  from a have hd: "has_dash expr" and ex: "expand_numbers expr max_span = Inr xs"
    by simp_all
  from expand_numbers_Inr_iff[OF hd, of max_span xs] ex
  have sd: "start_digits_of expr \<noteq> []" and le: "start_i expr \<le> end_i expr"
    and span: "end_i expr - start_i expr + 1 \<le> max_span"
    and xs: "xs = map (\<lambda>n. zero_padded ?w (str_int n)) [start_i expr..end_i expr]"
    by blast+
  have el: "\<exists>n. x = zero_padded ?w (str_int n) \<and> start_i expr \<le> n \<and> n \<le> end_i expr"
    if "x \<in> set xs" for x
    using that xs by auto
  have p1: "\<forall>x \<in> set xs. x \<noteq> [] \<and> list_all is_digit x \<and> ?w \<le> length x"
  proof
    fix x assume "x \<in> set xs"
    then obtain n where x: "x = zero_padded ?w (str_int n)" and n: "start_i expr \<le> n"
      using el by blast
    from n have "0 \<le> n" using start_i_nonneg[of expr] by simp
    then show "x \<noteq> [] \<and> list_all is_digit x \<and> ?w \<le> length x"
      using padded_str_int_shape[of n ?w] x by simp
  qed
  have p2: "\<forall>x \<in> set xs. length x = ?w" if short: "length (end_digits_of expr) \<le> ?w"
  proof
    fix x assume "x \<in> set xs"
    then obtain n where x: "x = zero_padded ?w (str_int n)" and n: "start_i expr \<le> n"
      "n \<le> end_i expr"
      using el by blast
    from n have "0 \<le> n" using start_i_nonneg[of expr] by simp
    moreover have "end_i expr < 10 ^ ?w"
      using end_i_bound[of expr] short by (simp add: max_def)
    then have "n < 10 ^ ?w" using n by simp
    moreover have "0 < ?w" using sd by simp
    ultimately show "length x = ?w"
      using x by (simp add: padded_str_int_width)
  qed
  have p3: "int (length xs) = end_i expr - start_i expr + 1"
    using xs le by simp
  have p4: "sorted_wrt (<) (map int_of_digits xs)"
    using xs map_int_of_padded[OF start_i_nonneg, of ?w expr "end_i expr"]
    by (simp add: sorted_wrt_upto)
  from p3 le have p5: "1 \<le> length xs" by simp
  from p3 span have p6: "int (length xs) \<le> max_span" by simp
  from p1 p2 p3 p4 p5 p6
  show "(\<forall>x \<in> set xs. x \<noteq> [] \<and> list_all is_digit x \<and> ?w \<le> length x) \<and>
     (length (end_digits_of expr) \<le> ?w \<longrightarrow> (\<forall>x \<in> set xs. length x = ?w)) \<and>
     int (length xs) = end_i expr - start_i expr + 1 \<and>
     1 \<le> length xs \<and> int (length xs) \<le> max_span \<and>
     sorted_wrt (<) (map int_of_digits xs)"
    by blast
qed

theorem expand_range_shape_witness:
  "has_dash ''0412345678-681'' \<and>
   expand_numbers ''0412345678-681'' 100 =
     Inr [''0412345678'', ''0412345679'', ''0412345680'', ''0412345681''] \<and>
   length (end_digits_of ''0412345678-681'') \<le> length (start_digits_of ''0412345678-681'') \<and>
   list_all (\<lambda>x. length x = length (start_digits_of ''0412345678-681''))
     [''0412345678'', ''0412345679'', ''0412345680'', ''0412345681''] \<and>
   int (length [''0412345678'', ''0412345679'', ''0412345680'', ''0412345681'']) \<le> 100 \<and>
   sorted_wrt (<)
     (map int_of_digits [''0412345678'', ''0412345679'', ''0412345680'', ''0412345681''])"
proof -
  have h: "has_dash ''0412345678-681'' \<and>
      expand_numbers ''0412345678-681'' 100 =
        Inr [''0412345678'', ''0412345679'', ''0412345680'', ''0412345681'']"
    by code_simp
  have short: "length (end_digits_of ''0412345678-681'') \<le>
      length (start_digits_of ''0412345678-681'')"
    by code_simp
  from expand_range_shape[of "''0412345678-681''" 100
      "[''0412345678'', ''0412345679'', ''0412345680'', ''0412345681'']"] h short
  have "(\<forall>x \<in> set [''0412345678'', ''0412345679'', ''0412345680'', ''0412345681''].
           length x = length (start_digits_of ''0412345678-681'')) \<and>
        int (length [''0412345678'', ''0412345679'', ''0412345680'', ''0412345681'']) \<le> 100 \<and>
        sorted_wrt (<)
          (map int_of_digits [''0412345678'', ''0412345679'', ''0412345680'', ''0412345681''])"
    by blast
  with h short show ?thesis
    unfolding list_all_iff by blast
qed

text \<open>The two inputs on which claim C3 fails as written.\<close>

theorem expand_range_shape_counterexample:
  "expand_numbers ''99-105'' 100 =
     Inr [''99'', ''100'', ''101'', ''102'', ''103'', ''104'', ''105''] \<and>
   length (start_digits_of ''99-105'') = 2 \<and>
   length ''100'' \<noteq> length (start_digits_of ''99-105'') \<and>
   expand_numbers ''abc'' 100 = Inr [''abc''] \<and>
   \<not> list_all is_digit ''abc''"
  by code_simp

lemma error_kinds_distinct:
  "BadRangeFormat \<noteq> RangeEndBeforeStart"
  "BadRangeFormat \<noteq> RangeTooLarge m"
  "RangeEndBeforeStart \<noteq> RangeTooLarge m"
  "UnsupportedNumberFormat raw \<noteq> BadRangeFormat"
  "UnsupportedNumberFormat raw \<noteq> RangeEndBeforeStart"
  "UnsupportedNumberFormat raw \<noteq> RangeTooLarge m"
  by simp_all



lemma classify_all_error:
  "classify_all ts dns tt = Inl e \<Longrightarrow> \<exists>t \<in> set ts. e = UnsupportedNumberFormat t"
proof (induction ts arbitrary: dns tt)
  case Nil
  then show ?case by simp
next
  case (Cons t ts)
  show ?case
  proof (cases "to_dn_and_target t")
    case (Inl e')
    with Cons.prems have "e = e'" by simp
    moreover from Inl have "e' = UnsupportedNumberFormat t"
      by (auto simp: to_dn_and_target_def Let_def split: if_splits)
    ultimately show ?thesis by simp
  next
    case (Inr p)
    obtain dn target where p: "p = (dn, target)" by (cases p)
    with Inr Cons.prems have "classify_all ts (dns @ [dn]) (tt @ [target]) = Inl e" by simp
    from Cons.IH[OF this] show ?thesis by auto
  qed
qed

lemma expand_preview_error:
  "expand_preview expr = Inl e \<Longrightarrow>
     expand_numbers expr 100 = Inl e \<or>
     (\<exists>ts. expand_numbers expr 100 = Inr ts \<and> (\<exists>t \<in> set ts. e = UnsupportedNumberFormat t))"
  by (auto simp: expand_preview_def split: sum.splits prod.splits dest: classify_all_error)

text \<open>
  Claim C10. For every input whose whitespace-stripped form contains no dash (the empty
  string and strings without any digit included), \<open>expand_numbers\<close> returns the
  one-element list holding the stripped string, whatever \<open>max_span\<close> is; so
  \<open>expand_preview\<close> on such an input can fail only with \<open>UnsupportedNumberFormat\<close>, raised
  by \<open>to_dn_and_target\<close> on the stripped string, and never with \<open>BadRangeFormat\<close>,
  \<open>RangeEndBeforeStart\<close> or \<open>RangeTooLarge\<close>.
\<close>

theorem no_dash_expand:
  "\<not> has_dash expr \<longrightarrow>
     expand_numbers expr max_span = Inr [strip_ws expr] \<and>
     (\<forall>e. expand_preview expr = Inl e \<longrightarrow> e = UnsupportedNumberFormat (strip_ws expr)) \<and>
     expand_preview expr \<noteq> Inl BadRangeFormat \<and>
     expand_preview expr \<noteq> Inl RangeEndBeforeStart \<and>
     (\<forall>m. expand_preview expr \<noteq> Inl (RangeTooLarge m))"
proof
  assume nd: "\<not> has_dash expr"
  have ex: "expand_numbers expr m = Inr [strip_ws expr]" for m
    using nd by (rule expand_numbers_no_dash)
  have un: "e = UnsupportedNumberFormat (strip_ws expr)" if "expand_preview expr = Inl e" for e
    using expand_preview_error[OF that] ex[of 100] by auto
  have "expand_preview expr \<noteq> Inl BadRangeFormat"
    using un[of BadRangeFormat] by auto
  moreover have "expand_preview expr \<noteq> Inl RangeEndBeforeStart"
    using un[of RangeEndBeforeStart] by auto
  moreover have "expand_preview expr \<noteq> Inl (RangeTooLarge m)" for m
    using un[of "RangeTooLarge m"] by auto
  ultimately show "expand_numbers expr max_span = Inr [strip_ws expr] \<and>
     (\<forall>e. expand_preview expr = Inl e \<longrightarrow> e = UnsupportedNumberFormat (strip_ws expr)) \<and>
     expand_preview expr \<noteq> Inl BadRangeFormat \<and>
     expand_preview expr \<noteq> Inl RangeEndBeforeStart \<and>
     (\<forall>m. expand_preview expr \<noteq> Inl (RangeTooLarge m))"
    using ex[of max_span] un by blast
qed

theorem no_dash_expand_witness:
  "\<not> has_dash [] \<and> expand_numbers [] 0 = Inr [[]] \<and>
   expand_preview [] = Inl (UnsupportedNumberFormat []) \<and>
   \<not> has_dash '' a b c '' \<and> strip_ws '' a b c '' = ''abc'' \<and>
   expand_numbers '' a b c '' (- 5) = Inr [''abc''] \<and>
   expand_preview '' a b c '' = Inl (UnsupportedNumberFormat ''abc'') \<and>
   expand_preview '' a b c '' \<noteq> Inl BadRangeFormat"
proof -
  have a: "\<not> has_dash []" "strip_ws [] = []" "expand_preview [] = Inl (UnsupportedNumberFormat [])"
    by code_simp+
  have b: "\<not> has_dash '' a b c ''" "strip_ws '' a b c '' = ''abc''"
    "expand_preview '' a b c '' = Inl (UnsupportedNumberFormat ''abc'')"
    by code_simp+
  from no_dash_expand[of "[]" 0] a have a': "expand_numbers [] 0 = Inr [[]]"
    by simp
  from no_dash_expand[of "'' a b c ''" "- 5"] b
  have b': "expand_numbers '' a b c '' (- 5) = Inr [''abc''] \<and>
      expand_preview '' a b c '' \<noteq> Inl BadRangeFormat"
    by simp
  from a a' b b' show ?thesis by blast
qed

section \<open>Claims about classification\<close>

lemma to_dn_and_target_unfold:
  "to_dn_and_target number =
     (if length (normalize_to_digits number) = 10 \<and> take 1 (normalize_to_digits number) = ''0''
      then Inr (''41'' @ drop 1 (normalize_to_digits number), normalize_to_digits number)
      else if length (normalize_to_digits number) = 11 \<and>
              take 2 (normalize_to_digits number) = ''41''
      then Inr (normalize_to_digits number, ''0'' @ drop 2 (normalize_to_digits number))
      else Inl (UnsupportedNumberFormat number))"
  by (simp add: to_dn_and_target_def startswith_def Let_def numeral_2_eq_2)



lemma classify_invariant:
  "to_dn_and_target number = Inr (d, t) \<Longrightarrow>
     d = ''41'' @ drop 1 t \<and> t = ''0'' @ drop 2 d \<and>
     length d = 11 \<and> length t = 10"
proof -
  assume a: "to_dn_and_target number = Inr (d, t)"
  let ?raw = "normalize_to_digits number"
  show ?thesis
  proof (cases "length ?raw = 10 \<and> take 1 ?raw = ''0''")
    case True
    then have "to_dn_and_target number = Inr (''41'' @ drop 1 ?raw, ?raw)"
      by (subst to_dn_and_target_unfold) simp
    with a have d: "d = ''41'' @ drop 1 ?raw" and t: "t = ?raw" by auto
    from True have "take 1 ?raw @ drop 1 ?raw = ''0'' @ drop 1 ?raw" by simp
    then have "?raw = ''0'' @ drop 1 ?raw" by (simp only: append_take_drop_id)
    with True d t show ?thesis by simp
  next
    case False
    show ?thesis
    proof (cases "length ?raw = 11 \<and> take 2 ?raw = ''41''")
      case True
      with False have "to_dn_and_target number = Inr (?raw, ''0'' @ drop 2 ?raw)"
        by (subst to_dn_and_target_unfold) simp
      with a have d: "d = ?raw" and t: "t = ''0'' @ drop 2 ?raw" by auto
      from True have "take 2 ?raw @ drop 2 ?raw = ''41'' @ drop 2 ?raw" by simp
      then have "?raw = ''41'' @ drop 2 ?raw" by (simp only: append_take_drop_id)
      with True d t show ?thesis by simp
    next
      case no: False
      with False have "to_dn_and_target number = Inl (UnsupportedNumberFormat number)"
        by (subst to_dn_and_target_unfold) simp
      with a show ?thesis by simp
    qed
  qed
qed

text \<open>
  Claim C6. For every string of exactly ten decimal digits that starts with \<open>0\<close>,
  \<open>to_dn_and_target\<close> succeeds, its target is the input, and \<open>"0" + dn[2:]\<close> computed from
  the produced \<open>dn\<close> is the input again. Every pair that \<open>to_dn_and_target\<close> returns, on
  any input, satisfies \<open>dn = "41" + target[1:]\<close> and \<open>target = "0" + dn[2:]\<close> together,
  with \<open>dn\<close> of length 11 and \<open>target\<close> of length 10.
\<close>

theorem classify_round_trip:
  "(length s = 10 \<and> list_all is_digit s \<and> take 1 s = ''0'' \<longrightarrow>
      (\<exists>dn target. to_dn_and_target s = Inr (dn, target) \<and>
         ''0'' @ drop 2 dn = s \<and> target = s \<and> dn = ''41'' @ drop 1 s)) \<and>
   (to_dn_and_target number = Inr (dn', target') \<longrightarrow>
      dn' = ''41'' @ drop 1 target' \<and> target' = ''0'' @ drop 2 dn' \<and>
      length dn' = 11 \<and> length target' = 10)"
proof -
  have rt: "\<exists>dn target. to_dn_and_target s = Inr (dn, target) \<and>
         ''0'' @ drop 2 dn = s \<and> target = s \<and> dn = ''41'' @ drop 1 s"
    if h: "length s = 10 \<and> list_all is_digit s \<and> take 1 s = ''0''"
  proof -
    from h have raw: "normalize_to_digits s = s" by (simp add: normalize_idem)
    from h have "to_dn_and_target s = Inr (''41'' @ drop 1 s, s)"
      by (subst to_dn_and_target_unfold) (simp add: raw)
    moreover from h have "take 1 s @ drop 1 s = ''0'' @ drop 1 s" by simp
    then have "''0'' @ drop 1 s = s" by (simp only: append_take_drop_id)
    ultimately show ?thesis by simp
  qed
  with classify_invariant[of number dn' target'] show ?thesis by blast
qed

theorem classify_round_trip_witness:
  "length ''0412345678'' = 10 \<and> list_all is_digit ''0412345678'' \<and>
   take 1 ''0412345678'' = ''0'' \<and>
   to_dn_and_target ''0412345678'' = Inr (''41412345678'', ''0412345678'') \<and>
   ''0'' @ drop 2 ''41412345678'' = ''0412345678'' \<and>
   ''41412345678'' = ''41'' @ drop 1 ''0412345678''"
proof -
  have h: "length ''0412345678'' = 10 \<and> list_all is_digit ''0412345678'' \<and>
      take 1 ''0412345678'' = ''0''"
    by code_simp
  from classify_round_trip[of "''0412345678''"] h
  obtain d t where "to_dn_and_target ''0412345678'' = Inr (d, t)"
    "''0'' @ drop 2 d = ''0412345678''" "t = ''0412345678''"
    "d = ''41'' @ drop 1 ''0412345678''"
    by blast
  with h show ?thesis by simp
qed

section \<open>Claims about the three operations\<close>



lemma ex_token: "require_token ex_cfg (Some ''secret'') = Inr ()"
  by (simp add: require_token_def ex_cfg_def)

lemma ex_preview: "expand_preview ''0412345678'' = Inr ex_prev"
  by code_simp


lemma ex_request_simps:
  "input (ex_request inp dr) = inp" "dry_run (ex_request inp dr) = dr"
  "enp_target (ex_request inp dr) = NXP2"
  by (simp_all add: ex_request_def)



text \<open>
  Claim C7. A dry run of \<open>fix_enp\<close> on a request that passed \<open>require_token\<close> and has a
  valid preview makes no store call and leaves every store as it was; its response holds
  the preview and the \<open>system_id\<close> and \<open>nprn\<close> of the profile of the requested
  \<open>enp_target\<close>: 500 and 98067 for \<open>NXP1\<close>, 510 and 98019 for \<open>NXP2\<close>.
\<close>

theorem fix_enp_dry_run:
  "require_token cfg header = Inr () \<and> expand_preview (input body) = Inr prev \<and>
   dry_run body \<longrightarrow>
     fix_enp cfg faults header body w =
       (Inr \<lparr> enp_dry_run = True, enp_enp_target = enp_target body, enp_prev = prev,
              enp_system_id = (case enp_target body of NXP1 \<Rightarrow> 500 | NXP2 \<Rightarrow> 510),
              enp_nprn = (case enp_target body of NXP1 \<Rightarrow> 98067 | NXP2 \<Rightarrow> 98019),
              updated_dns = None \<rparr>, w) \<and>
     calls (snd (fix_enp cfg faults header body w)) = calls w"
  by (cases "enp_target body") (simp_all add: fix_enp_def ENP_MAP_def)

theorem fix_enp_dry_run_witness:
  "require_token ex_cfg (Some ''secret'') = Inr () \<and>
   expand_preview (input (ex_request ''0412345678'' True)) = Inr ex_prev \<and>
   dry_run (ex_request ''0412345678'' True) \<and>
   fix_enp ex_cfg [] (Some ''secret'') (ex_request ''0412345678'' True) ex_world =
     (Inr \<lparr> enp_dry_run = True, enp_enp_target = NXP2, enp_prev = ex_prev,
            enp_system_id = 510, enp_nprn = 98019, updated_dns = None \<rparr>, ex_world)"
proof -
  have h: "expand_preview (input (ex_request ''0412345678'' True)) = Inr ex_prev"
    "dry_run (ex_request ''0412345678'' True)"
    by (simp_all only: ex_request_simps ex_preview)
  from fix_enp_dry_run[of ex_cfg "Some ''secret''" "ex_request ''0412345678'' True" ex_prev
      "[]" ex_world] h ex_token
  have "fix_enp ex_cfg [] (Some ''secret'') (ex_request ''0412345678'' True) ex_world =
     (Inr \<lparr> enp_dry_run = True, enp_enp_target = enp_target (ex_request ''0412345678'' True),
            enp_prev = ex_prev,
            enp_system_id =
              (case enp_target (ex_request ''0412345678'' True) of NXP1 \<Rightarrow> 500 | NXP2 \<Rightarrow> 510),
            enp_nprn =
              (case enp_target (ex_request ''0412345678'' True) of
                 NXP1 \<Rightarrow> 98067 | NXP2 \<Rightarrow> 98019),
            updated_dns = None \<rparr>, ex_world)"
    by blast
  with h ex_token show ?thesis
    by (simp add: ex_request_simps)
qed




lemma dn_update_row: "dn (update_row sid np now r) = dn r"
  by (simp add: update_row_def)

lemma product_id_update_row: "product_id (update_row sid np now r) = 1"
  by (simp add: update_row_def)

lemma fix_enp_live_unfold:
  assumes "require_token cfg header = Inr ()" "expand_preview (input body) = Inr prev"
    "\<not> dry_run body"
  shows "fix_enp cfg faults header body w =
    (if PG_DSN cfg = [] then (Inl (RuntimeError ''PG_DSN missing''), w)
     else if PgConnect \<in> set faults then
       (Inl (StoreError PgConnect), w\<lparr> calls := calls w @ [PgConnect] \<rparr>)
     else if PgExecute \<in> set faults then
       (Inl (StoreError PgExecute),
        w\<lparr> calls := calls w @ [PgConnect, PgExecute, PgRollback, PgClose] \<rparr>)
     else if PgCommit \<in> set faults then
       (Inl (StoreError PgCommit),
        w\<lparr> calls := calls w @ [PgConnect, PgExecute, PgCommit, PgClose] \<rparr>)
     else
       (Inr \<lparr> enp_dry_run = False, enp_enp_target = enp_target body, enp_prev = prev,
              enp_system_id = cfg_system_id (ENP_MAP (enp_target body)),
              enp_nprn = cfg_nprn (ENP_MAP (enp_target body)),
              updated_dns =
                Some (map dn (filter (\<lambda>r. dn r \<in> set (expanded_dns prev)) (numbers w))) \<rparr>,
        w\<lparr> numbers :=
               map (\<lambda>r. if dn r \<in> set (expanded_dns prev)
                        then update_row (cfg_system_id (ENP_MAP (enp_target body)))
                               (cfg_nprn (ENP_MAP (enp_target body))) (pg_now w) r
                        else r) (numbers w),
           calls := calls w @ [PgConnect, PgExecute, PgCommit, PgClose] \<rparr>))"
  using assms
  by (simp add: fix_enp_def pg_conn_def do_call_def note_call_def update_numbers_def
      Let_def split_def)

text \<open>
  Claim C9. The update statement of a live \<open>fix_enp\<close> also sets \<open>product_id\<close> to 1. When
  the run reaches the store and nothing raises, the table keeps its rows and their \<open>dn\<close>,
  every row whose \<open>dn\<close> is among the expanded \<open>dns\<close> has \<open>product_id = 1\<close> afterwards,
  whatever it was before, and every other row is unchanged. When the connection, the
  statement or the commit fails, the caller receives an error and the table is unchanged.
\<close>

theorem fix_enp_live_product_id:
  "require_token cfg header = Inr () \<and> expand_preview (input body) = Inr prev \<and>
   \<not> dry_run body \<longrightarrow>
     (PG_DSN cfg \<noteq> [] \<and> PgConnect \<notin> set faults \<and> PgExecute \<notin> set faults \<and>
      PgCommit \<notin> set faults \<longrightarrow>
        (\<exists>resp. fst (fix_enp cfg faults header body w) = Inr resp) \<and>
        length (numbers (snd (fix_enp cfg faults header body w))) = length (numbers w) \<and>
        (\<forall>i < length (numbers w).
           dn (numbers (snd (fix_enp cfg faults header body w)) ! i) = dn (numbers w ! i) \<and>
           (dn (numbers w ! i) \<in> set (expanded_dns prev) \<longrightarrow>
              product_id (numbers (snd (fix_enp cfg faults header body w)) ! i) = 1) \<and>
           (dn (numbers w ! i) \<notin> set (expanded_dns prev) \<longrightarrow>
              numbers (snd (fix_enp cfg faults header body w)) ! i = numbers w ! i))) \<and>
     (PG_DSN cfg = [] \<or> PgConnect \<in> set faults \<or> PgExecute \<in> set faults \<or>
      PgCommit \<in> set faults \<longrightarrow>
        (\<exists>e. fst (fix_enp cfg faults header body w) = Inl e) \<and>
        numbers (snd (fix_enp cfg faults header body w)) = numbers w)"
proof
  assume a: "require_token cfg header = Inr () \<and> expand_preview (input body) = Inr prev \<and>
   \<not> dry_run body"
  then have u: "fix_enp cfg faults header body w =
    (if PG_DSN cfg = [] then (Inl (RuntimeError ''PG_DSN missing''), w)
     else if PgConnect \<in> set faults then
       (Inl (StoreError PgConnect), w\<lparr> calls := calls w @ [PgConnect] \<rparr>)
     else if PgExecute \<in> set faults then
       (Inl (StoreError PgExecute),
        w\<lparr> calls := calls w @ [PgConnect, PgExecute, PgRollback, PgClose] \<rparr>)
     else if PgCommit \<in> set faults then
       (Inl (StoreError PgCommit),
        w\<lparr> calls := calls w @ [PgConnect, PgExecute, PgCommit, PgClose] \<rparr>)
     else
       (Inr \<lparr> enp_dry_run = False, enp_enp_target = enp_target body, enp_prev = prev,
              enp_system_id = cfg_system_id (ENP_MAP (enp_target body)),
              enp_nprn = cfg_nprn (ENP_MAP (enp_target body)),
              updated_dns =
                Some (map dn (filter (\<lambda>r. dn r \<in> set (expanded_dns prev)) (numbers w))) \<rparr>,
        w\<lparr> numbers :=
               map (\<lambda>r. if dn r \<in> set (expanded_dns prev)
                        then update_row (cfg_system_id (ENP_MAP (enp_target body)))
                               (cfg_nprn (ENP_MAP (enp_target body))) (pg_now w) r
                        else r) (numbers w),
           calls := calls w @ [PgConnect, PgExecute, PgCommit, PgClose] \<rparr>))"
    by (intro fix_enp_live_unfold) simp_all
  show "(PG_DSN cfg \<noteq> [] \<and> PgConnect \<notin> set faults \<and> PgExecute \<notin> set faults \<and>
      PgCommit \<notin> set faults \<longrightarrow>
        (\<exists>resp. fst (fix_enp cfg faults header body w) = Inr resp) \<and>
        length (numbers (snd (fix_enp cfg faults header body w))) = length (numbers w) \<and>
        (\<forall>i < length (numbers w).
           dn (numbers (snd (fix_enp cfg faults header body w)) ! i) = dn (numbers w ! i) \<and>
           (dn (numbers w ! i) \<in> set (expanded_dns prev) \<longrightarrow>
              product_id (numbers (snd (fix_enp cfg faults header body w)) ! i) = 1) \<and>
           (dn (numbers w ! i) \<notin> set (expanded_dns prev) \<longrightarrow>
              numbers (snd (fix_enp cfg faults header body w)) ! i = numbers w ! i))) \<and>
     (PG_DSN cfg = [] \<or> PgConnect \<in> set faults \<or> PgExecute \<in> set faults \<or>
      PgCommit \<in> set faults \<longrightarrow>
        (\<exists>e. fst (fix_enp cfg faults header body w) = Inl e) \<and>
        numbers (snd (fix_enp cfg faults header body w)) = numbers w)"
    unfolding u by (auto simp: dn_update_row product_id_update_row)
qed

theorem fix_enp_live_product_id_witness:
  "require_token ex_cfg (Some ''secret'') = Inr () \<and>
   expand_preview (input (ex_request ''0412345678'' False)) = Inr ex_prev \<and>
   \<not> dry_run (ex_request ''0412345678'' False) \<and>
   dn (numbers ex_world ! 0) \<in> set (expanded_dns ex_prev) \<and>
   product_id (numbers ex_world ! 0) = 7 \<and>
   product_id
     (numbers (snd (fix_enp ex_cfg [] (Some ''secret'') (ex_request ''0412345678'' False)
        ex_world)) ! 0) = 1 \<and>
   dn (numbers ex_world ! 1) \<notin> set (expanded_dns ex_prev) \<and>
   numbers (snd (fix_enp ex_cfg [] (Some ''secret'') (ex_request ''0412345678'' False)
      ex_world)) ! 1 = ex_row2 \<and>
   numbers (snd (fix_enp ex_cfg [PgCommit] (Some ''secret'') (ex_request ''0412345678'' False)
      ex_world)) = numbers ex_world"
proof -
  have h: "require_token ex_cfg (Some ''secret'') = Inr () \<and>
      expand_preview (input (ex_request ''0412345678'' False)) = Inr ex_prev \<and>
      \<not> dry_run (ex_request ''0412345678'' False)"
    by (simp add: ex_request_simps ex_preview ex_token)
  have c: "PG_DSN ex_cfg \<noteq> []" by (simp add: ex_cfg_def)
  have t: "length (numbers ex_world) = 2" "numbers ex_world ! 1 = ex_row2"
    "dn (numbers ex_world ! 0) \<in> set (expanded_dns ex_prev)"
    "dn (numbers ex_world ! 1) \<notin> set (expanded_dns ex_prev)"
    "product_id (numbers ex_world ! 0) = 7"
    by (simp_all add: ex_world_def ex_prev_def ex_row1_def ex_row2_def)
  from fix_enp_live_product_id[of ex_cfg "Some ''secret''" "ex_request ''0412345678'' False"
      ex_prev "[]" ex_world] h c
  have ok: "\<forall>i < length (numbers ex_world).
      (dn (numbers ex_world ! i) \<in> set (expanded_dns ex_prev) \<longrightarrow>
         product_id (numbers (snd (fix_enp ex_cfg [] (Some ''secret'')
           (ex_request ''0412345678'' False) ex_world)) ! i) = 1) \<and>
      (dn (numbers ex_world ! i) \<notin> set (expanded_dns ex_prev) \<longrightarrow>
         numbers (snd (fix_enp ex_cfg [] (Some ''secret'')
           (ex_request ''0412345678'' False) ex_world)) ! i = numbers ex_world ! i)"
    by simp
  from ok t have 1: "product_id
     (numbers (snd (fix_enp ex_cfg [] (Some ''secret'') (ex_request ''0412345678'' False)
        ex_world)) ! 0) = 1"
    by simp
  from ok t have 2: "numbers (snd (fix_enp ex_cfg [] (Some ''secret'')
      (ex_request ''0412345678'' False) ex_world)) ! 1 = ex_row2"
    by simp
  from fix_enp_live_product_id[of ex_cfg "Some ''secret''" "ex_request ''0412345678'' False"
      ex_prev "[PgCommit]" ex_world] h
  have 3: "numbers (snd (fix_enp ex_cfg [PgCommit] (Some ''secret'')
      (ex_request ''0412345678'' False) ex_world)) = numbers ex_world"
    by simp
  from h t 1 2 3 show ?thesis by blast
qed

end
